theory Spec2Isabelle
  imports Complex_Main "HOL-Library.AList" "HOL-Library.Log_Nat" "HOL-Library.Sublist"
    "HOL-Library.Multiset"
begin

section \<open>The data cache (\<open>DataCache\<close>)\<close>

text \<open>
  \<open>DataCache<T>\<close> wraps a JavaScript \<open>Map<string, {data, timestamp}>\<close> and the two
  options \<open>ttl\<close> and \<open>maxSize\<close>. A \<open>Map\<close> iterates in insertion order, \<open>Map.set\<close> on a
  key that is present overwrites the value in place and otherwise appends, and
  \<open>Map.delete\<close> removes the key: this is an association list with \<open>AList.update\<close>,
  \<open>AList.delete\<close> and \<open>map_of\<close>. \<open>Date.now()\<close> is an input of every operation that reads
  the clock (milliseconds as an integer).
\<close>

record 'a cache_entry =
  data :: 'a
  timestamp :: int

record 'a DataCache =
  cache :: "(string \<times> 'a cache_entry) list"
  ttl :: int
  maxSize :: int

text \<open>The constructor: \<open>ttl\<close> defaults to five minutes, \<open>maxSize\<close> to 100 entries.\<close>

definition newDataCache :: "int option \<Rightarrow> int option \<Rightarrow> 'a DataCache" where
  "newDataCache ttl_opt maxSize_opt =
     \<lparr> cache = [],
       ttl = (case ttl_opt of None \<Rightarrow> 5 * 60 * 1000 | Some t \<Rightarrow> t),
       maxSize = (case maxSize_opt of None \<Rightarrow> 100 | Some m \<Rightarrow> m) \<rparr>"

text \<open>
  \<open>findOldestEntry\<close>: one pass over the entries in insertion order, keeping the smallest
  timestamp seen so far (\<open>None\<close> stands for the initial \<open>Infinity\<close>) and its key
  (\<open>None\<close> stands for \<open>null\<close>).
\<close>

definition oldest_step ::
  "string \<times> 'a cache_entry \<Rightarrow> int option \<times> string option \<Rightarrow> int option \<times> string option" where
  "oldest_step ke acc =
     (case acc of (oldestTimestamp, oldestKey) \<Rightarrow>
        if (case oldestTimestamp of None \<Rightarrow> True | Some t \<Rightarrow> timestamp (snd ke) < t)
        then (Some (timestamp (snd ke)), Some (fst ke))
        else (oldestTimestamp, oldestKey))"

definition findOldestEntry :: "'a DataCache \<Rightarrow> string option" where
  "findOldestEntry c = snd (fold oldest_step (cache c) (None, None))"

text \<open>
  \<open>set\<close>: when the map is at \<open>maxSize\<close> the oldest key is deleted first; the test
  \<open>if (oldestKey)\<close> is a truthiness test, so neither \<open>null\<close> nor the empty string is
  deleted. Then the entry is stored with the current time.
\<close>

definition cache_set :: "string \<Rightarrow> 'a \<Rightarrow> int \<Rightarrow> 'a DataCache \<Rightarrow> 'a DataCache" where
  "cache_set key d now c =
     (let evicted =
            (if int (length (cache c)) \<ge> maxSize c
             then (case findOldestEntry c of
                     None \<Rightarrow> cache c
                   | Some oldestKey \<Rightarrow>
                       if oldestKey \<noteq> [] then AList.delete oldestKey (cache c) else cache c)
             else cache c)
      in c\<lparr> cache := AList.update key \<lparr> data = d, timestamp = now \<rparr> evicted \<rparr>)"

text \<open>
  \<open>get\<close> returns the value (\<open>None\<close> for \<open>null\<close>) and the cache after the call: an entry
  older than \<open>ttl\<close> is deleted on the way.
\<close>

definition cache_get :: "string \<Rightarrow> int \<Rightarrow> 'a DataCache \<Rightarrow> 'a option \<times> 'a DataCache" where
  "cache_get key now c =
     (case map_of (cache c) key of
        None \<Rightarrow> (None, c)
      | Some entry \<Rightarrow>
          if now - timestamp entry > ttl c
          then (None, c\<lparr> cache := AList.delete key (cache c) \<rparr>)
          else (Some (data entry), c))"

definition cache_has :: "string \<Rightarrow> 'a DataCache \<Rightarrow> bool" where
  "cache_has key c = (map_of (cache c) key \<noteq> None)"

definition cache_delete :: "string \<Rightarrow> 'a DataCache \<Rightarrow> bool \<times> 'a DataCache" where
  "cache_delete key c = (cache_has key c, c\<lparr> cache := AList.delete key (cache c) \<rparr>)"

definition cache_clear :: "'a DataCache \<Rightarrow> 'a DataCache" where
  "cache_clear c = c\<lparr> cache := [] \<rparr>"

section \<open>JavaScript numbers\<close>

text \<open>
  A JavaScript number is an IEEE-754 binary64 value: \<open>NaN\<close>, the two infinities, or a
  finite rational. Every arithmetic operation computes the exact result and rounds it to
  the nearest double, ties to even (\<open>fl\<close>). The sign of zero is not modelled: both zeros
  are \<open>Fin 0\<close>, and a division by zero takes the divisor as \<open>+0\<close>.
\<close>

datatype jsnum = NaN | NInf | Fin rat | PInf

text \<open>\<open>binade x\<close> is the exponent \<open>e\<close> with \<open>2^e \<le> |x| < 2^(e+1)\<close>, for \<open>x \<noteq> 0\<close>.\<close>

definition binade :: "rat \<Rightarrow> int" where
  "binade x = (if 1 \<le> \<bar>x\<bar> then bitlen \<lfloor>\<bar>x\<bar>\<rfloor> - 1 else - bitlen (\<lceil>1 / \<bar>x\<bar>\<rceil> - 1))"

definition round_half_even :: "rat \<Rightarrow> int" where
  "round_half_even q =
     (let f = \<lfloor>q\<rfloor>; r = q - of_int f
      in if r < 1 / 2 then f else if 1 / 2 < r then f + 1 else if even f then f else f + 1)"

text \<open>
  The spacing of doubles around \<open>x\<close>: 52 fraction bits below the leading bit, and the
  exponent never below \<open>-1022\<close> (subnormal numbers share the spacing \<open>2^-1074\<close>).
\<close>

definition ulp_of :: "rat \<Rightarrow> rat" where
  "ulp_of x = power_int 2 (max (binade x) (- 1022) - 52)"

definition fl :: "rat \<Rightarrow> jsnum" where
  "fl x =
     (let y = of_int (round_half_even (x / ulp_of x)) * ulp_of x
      in if 2 ^ 1024 \<le> \<bar>y\<bar> then (if 0 < x then PInf else NInf) else Fin y)"

definition js_neg :: "jsnum \<Rightarrow> jsnum" where
  "js_neg a = (case a of NaN \<Rightarrow> NaN | NInf \<Rightarrow> PInf | PInf \<Rightarrow> NInf | Fin x \<Rightarrow> Fin (- x))"

fun js_add :: "jsnum \<Rightarrow> jsnum \<Rightarrow> jsnum" where
  "js_add NaN _ = NaN"
| "js_add _ NaN = NaN"
| "js_add PInf NInf = NaN"
| "js_add NInf PInf = NaN"
| "js_add PInf _ = PInf"
| "js_add _ PInf = PInf"
| "js_add NInf _ = NInf"
| "js_add _ NInf = NInf"
| "js_add (Fin a) (Fin b) = fl (a + b)"

definition js_sub :: "jsnum \<Rightarrow> jsnum \<Rightarrow> jsnum" where
  "js_sub a b = js_add a (js_neg b)"

definition inf_of_sign :: "bool \<Rightarrow> jsnum" where
  "inf_of_sign positive = (if positive then PInf else NInf)"

fun js_mul :: "jsnum \<Rightarrow> jsnum \<Rightarrow> jsnum" where
  "js_mul NaN _ = NaN"
| "js_mul _ NaN = NaN"
| "js_mul (Fin a) (Fin b) = fl (a * b)"
| "js_mul (Fin a) PInf = (if a = 0 then NaN else inf_of_sign (0 < a))"
| "js_mul (Fin a) NInf = (if a = 0 then NaN else inf_of_sign (a < 0))"
| "js_mul PInf (Fin b) = (if b = 0 then NaN else inf_of_sign (0 < b))"
| "js_mul NInf (Fin b) = (if b = 0 then NaN else inf_of_sign (b < 0))"
| "js_mul PInf PInf = PInf"
| "js_mul NInf NInf = PInf"
| "js_mul PInf NInf = NInf"
| "js_mul NInf PInf = NInf"

fun js_div :: "jsnum \<Rightarrow> jsnum \<Rightarrow> jsnum" where
  "js_div NaN _ = NaN"
| "js_div _ NaN = NaN"
| "js_div (Fin a) (Fin b) =
     (if b = 0 then (if a = 0 then NaN else inf_of_sign (0 < a)) else fl (a / b))"
| "js_div (Fin a) PInf = Fin 0"
| "js_div (Fin a) NInf = Fin 0"
| "js_div PInf (Fin b) = inf_of_sign (0 \<le> b)"
| "js_div NInf (Fin b) = inf_of_sign (b < 0)"
| "js_div PInf PInf = NaN"
| "js_div NInf NInf = NaN"
| "js_div PInf NInf = NaN"
| "js_div NInf PInf = NaN"

text \<open>\<open>a < b\<close> on numbers: false as soon as one side is \<open>NaN\<close>.\<close>

fun js_lt :: "jsnum \<Rightarrow> jsnum \<Rightarrow> bool" where
  "js_lt NaN _ = False"
| "js_lt _ NaN = False"
| "js_lt (Fin a) (Fin b) = (a < b)"
| "js_lt NInf NInf = False"
| "js_lt NInf _ = True"
| "js_lt _ NInf = False"
| "js_lt PInf _ = False"
| "js_lt _ PInf = True"

definition js_gt :: "jsnum \<Rightarrow> jsnum \<Rightarrow> bool" where
  "js_gt a b = js_lt b a"

definition isNaN :: "jsnum \<Rightarrow> bool" where
  "isNaN a = (a = NaN)"

text \<open>\<open>Math.floor\<close> and \<open>Math.abs\<close>; an integer below \<open>2^53\<close> in magnitude is a double.\<close>

definition Math_floor :: "jsnum \<Rightarrow> jsnum" where
  "Math_floor a = (case a of Fin x \<Rightarrow> Fin (of_int \<lfloor>x\<rfloor>) | _ \<Rightarrow> a)"

definition Math_abs :: "jsnum \<Rightarrow> jsnum" where
  "Math_abs a = (case a of Fin x \<Rightarrow> Fin \<bar>x\<bar> | NInf \<Rightarrow> PInf | _ \<Rightarrow> a)"

definition num_of_nat :: "nat \<Rightarrow> jsnum" where
  "num_of_nat n = Fin (of_nat n)"

definition num_of_int :: "int \<Rightarrow> jsnum" where
  "num_of_int n = Fin (of_int n)"

section \<open>Cell values and rows\<close>

text \<open>
  A cell is a loosely typed scalar. A row is a JavaScript object used as a record: its
  own keys in insertion order. Reading a key that is absent yields \<open>undefined\<close>;
  properties inherited from \<open>Object.prototype\<close> are not modelled.
\<close>

datatype cell = Num jsnum | Str string | Bool bool | Null | Undefined

type_synonym row = "(string \<times> cell) list"

definition get_field :: "row \<Rightarrow> string \<Rightarrow> cell" where
  "get_field r k = (case map_of r k of None \<Rightarrow> Undefined | Some v \<Rightarrow> v)"


definition set_field :: "row \<Rightarrow> string \<Rightarrow> cell \<Rightarrow> row" where
  "set_field r k v = AList.update k v r"

section \<open>Strings, \<open>parseFloat\<close> and the regular expressions\<close>

text \<open>
  Strings are lists of 8-bit characters; the letters, digits and white space that the
  code tests are ASCII, and white space beyond ASCII is not modelled.
\<close>

definition is_digit :: "char \<Rightarrow> bool" where
  "is_digit c = (c \<in> set ''0123456789'')"

definition is_letter :: "char \<Rightarrow> bool" where
  "is_letter c = (c \<in> set ''ABCDEFGHIJKLMNOPQRSTUVWXYZabcdefghijklmnopqrstuvwxyz'')"

definition is_white :: "char \<Rightarrow> bool" where
  "is_white c = (c \<in> set [CHR '' '', CHR 0x09, CHR 0x0A, CHR 0x0B, CHR 0x0C, CHR 0x0D])"

definition digit_val :: "char \<Rightarrow> nat" where
  "digit_val c =
     (case map_of (zip ''0123456789'' [0, 1, 2, 3, 4, 5, 6, 7, 8, 9]) c of
        None \<Rightarrow> 0
      | Some d \<Rightarrow> d)"

definition digits_val :: "string \<Rightarrow> nat" where
  "digits_val ds = fold (\<lambda>c n. 10 * n + digit_val c) ds 0"

definition lower_char :: "char \<Rightarrow> char" where
  "lower_char c =
     (case map_of (zip ''ABCDEFGHIJKLMNOPQRSTUVWXYZ'' ''abcdefghijklmnopqrstuvwxyz'') c of
        None \<Rightarrow> c
      | Some l \<Rightarrow> l)"

text \<open>
  \<open>parseFloat\<close>: leading white space is dropped, and the longest prefix that is a
  \<open>StrDecimalLiteral\<close> is read: an optional sign, then \<open>Infinity\<close>, or digits with an
  optional fraction, or a dot with digits, then an exponent part when it is complete.
  Without such a prefix the result is \<open>NaN\<close>. The value is the decimal value rounded to
  the nearest double.
\<close>

definition exponent_part :: "string \<Rightarrow> int" where
  "exponent_part s =
     (case s of
        [] \<Rightarrow> 0
      | c # r \<Rightarrow>
          if c = CHR ''e'' \<or> c = CHR ''E''
          then (case r of
                  [] \<Rightarrow> 0
                | d # r' \<Rightarrow>
                    if d = CHR ''+'' then int (digits_val (takeWhile is_digit r'))
                    else if d = CHR ''-'' then - int (digits_val (takeWhile is_digit r'))
                    else int (digits_val (takeWhile is_digit r)))
          else 0)"

definition unsigned_decimal :: "string \<Rightarrow> rat option" where
  "unsigned_decimal u =
     (let ip = takeWhile is_digit u;
          r1 = dropWhile is_digit u;
          fp = (case r1 of [] \<Rightarrow> [] | c # r \<Rightarrow> if c = CHR ''.'' then takeWhile is_digit r else []);
          r2 = (case r1 of [] \<Rightarrow> [] | c # r \<Rightarrow> if c = CHR ''.'' then dropWhile is_digit r else r1)
      in if ip = [] \<and> fp = [] then None
         else Some ((of_nat (digits_val ip) + of_nat (digits_val fp) / 10 ^ length fp)
                    * power_int 10 (exponent_part r2)))"

definition parseFloat :: "string \<Rightarrow> jsnum" where
  "parseFloat s =
     (let t = dropWhile is_white s;
          negative = (case t of [] \<Rightarrow> False | c # _ \<Rightarrow> c = CHR ''-'');
          u = (case t of [] \<Rightarrow> [] | c # r \<Rightarrow> if c = CHR ''-'' \<or> c = CHR ''+'' then r else t)
      in if prefix ''Infinity'' u then (if negative then NInf else PInf)
         else (case unsigned_decimal u of
                 None \<Rightarrow> NaN
               | Some v \<Rightarrow> fl (if negative then - v else v)))"

text \<open>
  The regular expressions. \<open>/id$|^id|_id$|^customer|^user/i\<close> tests the field name,
  \<open>/^[A-Z][0-9]+$/i\<close> is the identifier shape, \<open>/^\d{4}-\d{2}-\d{2}/\<close> the leading date,
  and \<open>/[0-9]+/\<close> finds the first run of digits.
\<close>

definition idNamePattern :: "string \<Rightarrow> bool" where
  "idNamePattern fieldName =
     (let l = map lower_char fieldName
      in suffix ''id'' l \<or> prefix ''id'' l \<or> suffix ''_id'' l
         \<or> prefix ''customer'' l \<or> prefix ''user'' l)"

definition idPattern :: "string \<Rightarrow> bool" where
  "idPattern s = (case s of [] \<Rightarrow> False | c # ds \<Rightarrow> is_letter c \<and> ds \<noteq> [] \<and> list_all is_digit ds)"

definition datePattern :: "string \<Rightarrow> bool" where
  "datePattern s =
     (10 \<le> length s
      \<and> list_all is_digit (take 4 s) \<and> s ! 4 = CHR ''-''
      \<and> list_all is_digit (take 2 (drop 5 s)) \<and> s ! 7 = CHR ''-''
      \<and> list_all is_digit (take 2 (drop 8 s)))"

definition firstDigits :: "string \<Rightarrow> string option" where
  "firstDigits s =
     (let r = dropWhile (\<lambda>c. \<not> is_digit c) s
      in if r = [] then None else Some (takeWhile is_digit r))"

section \<open>The dataset reducer (\<open>optimizeDataset\<close>)\<close>

datatype samplingStrategy = First | Last | Random | Evenly

text \<open>
  \<open>Array.prototype.slice(start, end)\<close>: a negative bound counts from the end, both bounds
  are clamped to the array, and an absent \<open>end\<close> is the length.
\<close>

definition js_slice :: "'a list \<Rightarrow> int \<Rightarrow> int option \<Rightarrow> 'a list" where
  "js_slice xs start end =
     (let len = int (length xs);
          k = (if start < 0 then max (len + start) 0 else min start len);
          final = (case end of
                     None \<Rightarrow> len
                   | Some e \<Rightarrow> if e < 0 then max (len + e) 0 else min e len)
      in take (nat (final - k)) (drop (nat k) xs))"


text \<open>
  The \<open>random\<close> strategy draws from a clone and splices each drawn element out.
  \<open>Math.floor(Math.random() * n)\<close> is a number in \<open>[0, n)\<close>; the random source is the
  parameter \<open>rnd\<close>, asked with the draw number and the size \<open>n\<close> of the pool. The first
  argument counts the draws that remain (\<open>maxRows - i\<close>).
\<close>

fun sample_random :: "(nat \<Rightarrow> nat \<Rightarrow> nat) \<Rightarrow> nat \<Rightarrow> nat \<Rightarrow> 'a list \<Rightarrow> 'a list" where
  "sample_random rnd 0 i dataClone = []"
| "sample_random rnd (Suc k) i dataClone =
     (if dataClone = [] then []
      else let randomIndex = rnd i (length dataClone) mod length dataClone
           in dataClone ! randomIndex
              # sample_random rnd k (Suc i)
                  (take randomIndex dataClone @ drop (Suc randomIndex) dataClone))"

text \<open>
  The \<open>evenly\<close> strategy: \<open>step = data.length / maxRows\<close>, and for \<open>i = 0, 1, ...\<close> below
  \<open>maxRows\<close> the index \<open>Math.floor(i * step)\<close>, kept when it is below \<open>data.length\<close>.
  The quotient and every product are doubles. The loop body runs only for
  \<open>maxRows \<ge> 1\<close>, where \<open>step\<close> is positive, so the index is never negative.
\<close>

definition evenly_index :: "nat \<Rightarrow> int \<Rightarrow> nat \<Rightarrow> jsnum" where
  "evenly_index len maxRows i =
     Math_floor (js_mul (num_of_nat i) (js_div (num_of_nat len) (num_of_int maxRows)))"

definition evenly_pick :: "'a list \<Rightarrow> int \<Rightarrow> nat \<Rightarrow> 'a list" where
  "evenly_pick dat maxRows i =
     (let index = evenly_index (length dat) maxRows i
      in if js_lt index (num_of_nat (length dat))
         then (case index of Fin k \<Rightarrow> [dat ! nat \<lfloor>k\<rfloor>] | _ \<Rightarrow> [])
         else [])"

definition sample_evenly :: "'a list \<Rightarrow> int \<Rightarrow> 'a list" where
  "sample_evenly dat maxRows = concat (map (evenly_pick dat maxRows) [0..<nat maxRows])"


definition sampleRows ::
  "(nat \<Rightarrow> nat \<Rightarrow> nat) \<Rightarrow> samplingStrategy \<Rightarrow> int \<Rightarrow> 'a list \<Rightarrow> 'a list" where
  "sampleRows rnd strategy maxRows dat =
     (case strategy of
        First \<Rightarrow> js_slice dat 0 (Some maxRows)
      | Last \<Rightarrow> js_slice dat (- maxRows) None
      | Random \<Rightarrow> sample_random rnd (nat maxRows) 0 dat
      | Evenly \<Rightarrow> sample_evenly dat maxRows)"


text \<open>
  The options object: an absent \<open>maxRows\<close> is 10000, an absent strategy is \<open>evenly\<close>.
  A dataset that already fits is returned as it is (projected when \<open>fields\<close> is given).
\<close>

record options =
  maxRows :: "int option"
  samplingStrategy :: "samplingStrategy option"
  fields' :: "string list option"


text \<open>A rational is a double when rounding leaves it as it is.\<close>

definition is_double :: "rat \<Rightarrow> bool" where
  "is_double x = (fl x = Fin x)"

text \<open>
  \<open>Array.prototype.sort(compareFn)\<close> is stable, and \<open>x\<close> is placed after \<open>y\<close> exactly when
  \<open>compareFn(x, y) > 0\<close> (a \<open>NaN\<close> result counts as \<open>0\<close>). For a consistent comparator
  this determines the result, which stable insertion computes; for an inconsistent one
  ECMAScript leaves the order to the implementation, and the model keeps insertion.
\<close>

fun sort_insert :: "('a \<Rightarrow> 'a \<Rightarrow> jsnum) \<Rightarrow> 'a \<Rightarrow> 'a list \<Rightarrow> 'a list" where
  "sort_insert compareFn x [] = [x]"
| "sort_insert compareFn x (y # ys) =
     (if js_lt (Fin 0) (compareFn x y) then y # sort_insert compareFn x ys else x # y # ys)"

definition js_sort :: "('a \<Rightarrow> 'a \<Rightarrow> jsnum) \<Rightarrow> 'a list \<Rightarrow> 'a list" where
  "js_sort compareFn xs = foldr (sort_insert compareFn) xs []"

section \<open>The pie-slice cap (\<open>renderChart\<close>, case \<open>pie\<close>)\<close>

text \<open>
  A pie slice is \<open>{name, value}\<close>. More than 8 slices are sorted by
  \<open>(a, b) => b.value - a.value\<close>; the first 7 are kept and the rest is summed, from 0 and
  left to right, into one slice named \<open>"Other"\<close>. The value is taken as the number the
  subtraction and the addition read (a \<open>true\<close> produced by \<open>item[y] || 0\<close> reads as 1).
\<close>

type_synonym slice = "cell \<times> jsnum"

definition slice_compare :: "slice \<Rightarrow> slice \<Rightarrow> jsnum" where
  "slice_compare a b = js_sub (snd b) (snd a)"

definition otherValue :: "slice list \<Rightarrow> jsnum" where
  "otherValue otherSlices = fold (\<lambda>item sum. js_add sum (snd item)) otherSlices (Fin 0)"

definition capSlices :: "slice list \<Rightarrow> slice list" where
  "capSlices pieData =
     (if length pieData > 8
      then let sorted = js_sort slice_compare pieData;
               topSlices = js_slice sorted 0 (Some 7);
               otherSlices = js_slice sorted 7 None
           in topSlices @ [(Str ''Other'', otherValue otherSlices)]
      else pieData)"

text \<open>The exact (unrounded) total of the finite slice values.\<close>

definition fin_val :: "jsnum \<Rightarrow> rat" where
  "fin_val a = (case a of Fin x \<Rightarrow> x | _ \<Rightarrow> 0)"

definition exact_total :: "slice list \<Rightarrow> rat" where
  "exact_total ps = sum_list (map (\<lambda>s. fin_val (snd s)) ps)"

text \<open>
  Slices whose value is a finite double, and slices whose value is a natural number.
\<close>

definition double_valued :: "slice \<Rightarrow> bool" where
  "double_valued s = (\<exists>r. snd s = Fin r \<and> is_double r)"

definition nat_valued :: "slice \<Rightarrow> bool" where
  "nat_valued s = (\<exists>k::nat. snd s = Fin (of_nat k))"

section \<open>The chart field selector (\<open>Dashboard\<close>)\<close>

subsection \<open>Column tests\<close>

definition is_Str :: "cell \<Rightarrow> bool" where
  "is_Str v = (case v of Str _ \<Rightarrow> True | _ \<Rightarrow> False)"

definition is_Num :: "cell \<Rightarrow> bool" where
  "is_Num v = (case v of Num _ \<Rightarrow> True | _ \<Rightarrow> False)"

text \<open>
  The number that \<open>isNaN\<close>, \<open>Math.abs\<close> and the arithmetic operators read from
  \<open>typeof v === "string" ? parseFloat(v) : v\<close>: a string is parsed, and any other value is
  converted as \<open>Number(v)\<close> does (\<open>true\<close> is 1, \<open>false\<close> and \<open>null\<close> are 0, \<open>undefined\<close>
  is \<open>NaN\<close>).
\<close>

definition numeric_view :: "cell \<Rightarrow> jsnum" where
  "numeric_view v =
     (case v of
        Str s \<Rightarrow> parseFloat s
      | Num n \<Rightarrow> n
      | Bool b \<Rightarrow> if b then Fin 1 else Fin 0
      | Null \<Rightarrow> Fin 0
      | Undefined \<Rightarrow> NaN)"

text \<open>\<open>rows.map((row) => row[header])\<close>.\<close>

definition column :: "string \<Rightarrow> row list \<Rightarrow> cell list" where
  "column header rs = map (\<lambda>r. get_field r header) rs"

text \<open>
  \<open>n > length * 0.5\<close>: halving an array length is exact in doubles, so the test is
  written on the rationals.
\<close>

definition more_than_half :: "nat \<Rightarrow> nat \<Rightarrow> bool" where
  "more_than_half cnt len = ((of_nat len :: rat) * (1 / 2) < of_nat cnt)"

definition isIdLikeField :: "string \<Rightarrow> cell list \<Rightarrow> bool" where
  "isIdLikeField fieldName values =
     (if idNamePattern fieldName then True
      else if values \<noteq> [] \<and> (case values of [] \<Rightarrow> False | v # _ \<Rightarrow> is_Str v)
      then (let matchCount =
                  length (filter (\<lambda>v. case v of Str s \<Rightarrow> idPattern s | _ \<Rightarrow> False) values)
            in if more_than_half matchCount (length values) then True else False)
      else False)"

definition numericCount :: "string \<Rightarrow> row list \<Rightarrow> nat" where
  "numericCount header rs =
     fold (\<lambda>r cnt.
             let v = get_field r header
             in if is_Num v \<or> (case v of Str s \<Rightarrow> \<not> isNaN (parseFloat s) | _ \<Rightarrow> False)
                then cnt + 1 else cnt) rs 0"

definition hasNonZeroValues :: "string \<Rightarrow> row list \<Rightarrow> bool" where
  "hasNonZeroValues header rs =
     list_ex (\<lambda>r. let val = numeric_view (get_field r header)
                  in \<not> isNaN val \<and> js_lt (fl (1 / 1000)) (Math_abs val)) rs"

definition numericFields :: "string list \<Rightarrow> row list \<Rightarrow> string list" where
  "numericFields hs rs =
     filter (\<lambda>header.
               if isIdLikeField header (column header rs) then False
               else more_than_half (numericCount header rs) (length rs)
                    \<and> hasNonZeroValues header rs) hs"

text \<open>
  \<open>getNumericFieldScore\<close>. \<open>Math.pow(x, 2)\<close> is taken as the rounded product \<open>x * x\<close>. The
  \<open>Set\<close> counts the values as they are after the parse (\<open>true\<close> and 1 are different
  elements).
\<close>

definition getNumericFieldScore :: "string \<Rightarrow> cell list \<Rightarrow> jsnum" where
  "getNumericFieldScore fieldName values =
     (let numericValues =
            filter (\<lambda>v. \<not> isNaN (numeric_view v))
              (map (\<lambda>v. case v of Str s \<Rightarrow> Num (parseFloat s) | _ \<Rightarrow> v) values)
      in if length numericValues = 0 then Fin 0
         else let n = num_of_nat (length numericValues);
                  mean = js_div (fold (\<lambda>v sum. js_add sum (numeric_view v)) numericValues (Fin 0)) n;
                  variance =
                    js_div (fold (\<lambda>v sum. js_add sum
                                   (js_mul (js_sub (numeric_view v) mean)
                                           (js_sub (numeric_view v) mean)))
                              numericValues (Fin 0)) n;
                  uniqueCount = length (remdups numericValues);
                  uniqueRatio = js_div (num_of_nat uniqueCount) n
              in js_mul (js_mul variance uniqueRatio) (Fin 100))"

definition score_compare :: "string \<times> jsnum \<Rightarrow> string \<times> jsnum \<Rightarrow> jsnum" where
  "score_compare a b = js_sub (snd b) (snd a)"

definition scoredNumericFields :: "string list \<Rightarrow> row list \<Rightarrow> string list" where
  "scoredNumericFields hs rs =
     map fst (js_sort score_compare
                (map (\<lambda>field. (field, getNumericFieldScore field (column field rs)))
                   (numericFields hs rs)))"

definition dateCount :: "string \<Rightarrow> row list \<Rightarrow> nat" where
  "dateCount header rs =
     fold (\<lambda>r cnt.
             if (case get_field r header of Str s \<Rightarrow> datePattern s | _ \<Rightarrow> False)
             then cnt + 1 else cnt) rs 0"

definition dateFields :: "string list \<Rightarrow> row list \<Rightarrow> string list" where
  "dateFields hs rs =
     filter (\<lambda>header.
               if isIdLikeField header (column header rs) then False
               else more_than_half (dateCount header rs) (length rs)) hs"

definition categoryFields :: "string list \<Rightarrow> row list \<Rightarrow> string list" where
  "categoryFields hs rs =
     filter (\<lambda>header.
               if isIdLikeField header (column header rs) then False
               else header \<notin> set (numericFields hs rs) \<and> header \<notin> set (dateFields hs rs)) hs"

definition goodCategoryFields :: "string list \<Rightarrow> row list \<Rightarrow> string list" where
  "goodCategoryFields hs rs =
     filter (\<lambda>field.
               let uniqueValues = length (remdups (column field rs))
               in 2 \<le> uniqueValues \<and> uniqueValues \<le> 15) (categoryFields hs rs)"

subsection \<open>\<open>getDatasetStats\<close>\<close>

text \<open>
  The numeric values of a column: \<open>null\<close> and \<open>undefined\<close> are dropped, strings are parsed,
  and what \<open>isNaN\<close> rejects is dropped. Each kept value is recorded as the number the later
  \<open>Math.min\<close>, \<open>Math.max\<close>, \<open>Math.abs\<close> and \<open>+\<close> read from it.
\<close>

definition stats_numericValues :: "cell list \<Rightarrow> jsnum list" where
  "stats_numericValues values =
     filter (\<lambda>n. \<not> isNaN n)
       (map numeric_view (filter (\<lambda>v. v \<noteq> Null \<and> v \<noteq> Undefined) values))"

definition js_min :: "jsnum \<Rightarrow> jsnum \<Rightarrow> jsnum" where
  "js_min a b = (if a = NaN \<or> b = NaN then NaN else if js_lt b a then b else a)"

definition js_max :: "jsnum \<Rightarrow> jsnum \<Rightarrow> jsnum" where
  "js_max a b = (if a = NaN \<or> b = NaN then NaN else if js_lt a b then b else a)"

record columnStats =
  stat_type :: string
  uniqueValues :: nat
  stat_hasNonZeroValues :: bool
  stat_min :: "jsnum option"
  stat_max :: "jsnum option"
  stat_mean :: "jsnum option"

definition columnStatsOf :: "string \<Rightarrow> row list \<Rightarrow> columnStats" where
  "columnStatsOf header rs =
     (let values = column header rs;
          numericValues = stats_numericValues values;
          isNumeric = more_than_half (length numericValues) (length rs);
          dateValues = filter (\<lambda>v. case v of Str s \<Rightarrow> datePattern s | _ \<Rightarrow> False) values;
          isDate = more_than_half (length dateValues) (length rs);
          computed = isNumeric \<and> length numericValues > 0
      in \<lparr> stat_type = (if isDate then ''date'' else if isNumeric then ''numeric''
                        else ''categorical''),
           uniqueValues = length (remdups values),
           stat_hasNonZeroValues =
             list_ex (\<lambda>n. js_lt (fl (1 / 1000)) (Math_abs n)) numericValues,
           stat_min = (if computed then Some (fold js_min numericValues PInf) else None),
           stat_max = (if computed then Some (fold js_max numericValues NInf) else None),
           stat_mean =
             (if computed
              then Some (js_div (fold (\<lambda>val sum. js_add sum val) numericValues (Fin 0))
                           (num_of_nat (length numericValues)))
              else None) \<rparr>)"

definition getDatasetStats :: "string list \<Rightarrow> row list \<Rightarrow> (string \<times> columnStats) list" where
  "getDatasetStats hs rs =
     fold (\<lambda>header stats. AList.update header (columnStatsOf header rs) stats) hs []"

subsection \<open>The dashboard state\<close>

text \<open>
  Row objects live in a store and the dataset holds references to them: the imported
  rows, the rows of \<open>currentData\<close> and the array \<open>enhancedData\<close> can share objects, and
  \<open>row[demoField] = ...\<close> writes into the shared object. Arrays themselves are only ever
  built anew, so they are plain lists. \<open>Date.now()\<close>, \<open>Math.sin\<close> and the stream of
  \<open>Math.random()\<close> results are inputs.
\<close>

datatype chartType = Line | Bar | Area | Pie | Scatter

definition chartTypeName :: "chartType \<Rightarrow> string" where
  "chartTypeName t =
     (case t of Line \<Rightarrow> ''line'' | Bar \<Rightarrow> ''bar'' | Area \<Rightarrow> ''area'' | Pie \<Rightarrow> ''pie''
      | Scatter \<Rightarrow> ''scatter'')"

definition upper_char :: "char \<Rightarrow> char" where
  "upper_char c =
     (case map_of (zip ''abcdefghijklmnopqrstuvwxyz'' ''ABCDEFGHIJKLMNOPQRSTUVWXYZ'') c of
        None \<Rightarrow> c
      | Some u \<Rightarrow> u)"

definition defaultTitle :: "chartType \<Rightarrow> string" where
  "defaultTitle t =
     (case chartTypeName t of [] \<Rightarrow> [] | c # r \<Rightarrow> upper_char c # r) @ '' Chart''"

type_synonym ref = nat

record dataset =
  headers :: "string list"
  rows :: "ref list"

text \<open>
  The \<open>config\<close> argument of \<open>handleAddChart\<close>: the keys a caller may supply. A key that is
  present wins through the final \<open>...config\<close> spread; an absent key is \<open>None\<close>.
\<close>

record overrides =
  o_xAxis :: "string option"
  o_yAxis :: "string option"
  o_groupBy :: "string option"
  o_title :: "string option"

record ChartConfig =
  chart_type :: chartType
  xAxis :: "string option"
  yAxis :: "string option"
  groupBy :: "string option"
  title :: "string option"
  margin :: "nat \<times> nat \<times> nat \<times> nat"

record chart =
  chart_id :: int
  chart_kind :: chartType
  config :: ChartConfig

record dashboard =
  currentData :: "dataset option"
  charts :: "chart list"
  heap :: "ref \<Rightarrow> row"
  randomCalls :: nat

definition deref :: "dashboard \<Rightarrow> ref list \<Rightarrow> row list" where
  "deref st refs = map (heap st) refs"

text \<open>
  \<open>optimizeDataset\<close> as \<open>handleDataImported\<close> calls it, without \<open>fields\<close>: no row is copied
  or changed, so the result shares the row objects of the input.
\<close>

definition optimizeRefs ::
  "(nat \<Rightarrow> nat \<Rightarrow> nat) \<Rightarrow> 'a list \<Rightarrow> int \<Rightarrow> samplingStrategy \<Rightarrow> 'a list" where
  "optimizeRefs rnd dat limit strategy =
     (if dat = [] then []
      else if int (length dat) \<le> limit then dat
      else sampleRows rnd strategy limit dat)"

definition handleDataImported :: "(nat \<Rightarrow> nat \<Rightarrow> nat) \<Rightarrow> dataset \<Rightarrow> dashboard \<Rightarrow> dashboard" where
  "handleDataImported rnd imported st =
     (let optimizedData = optimizeRefs rnd (rows imported) 10000 Evenly
      in st\<lparr> currentData := Some \<lparr> headers = headers imported, rows = optimizedData \<rparr> \<rparr>)"

text \<open>
  \<open>generateDemoData\<close>: \<open>enhancedData = [...currentData.rows]\<close> is a new array of the same
  row objects, and the loop assigns the demo value into each of them.
\<close>

definition demoFieldName :: "chartType \<Rightarrow> string" where
  "demoFieldName t = ''demo_'' @ chartTypeName t @ ''_value''"

definition demoStep ::
  "(jsnum \<Rightarrow> jsnum) \<Rightarrow> (nat \<Rightarrow> jsnum) \<Rightarrow> chartType \<Rightarrow> ref \<times> nat \<Rightarrow> dashboard \<Rightarrow> dashboard" where
  "demoStep msin mrandom t ri st =
     (case ri of (r, index) \<Rightarrow>
        (case t of
           Pie \<Rightarrow>
             st\<lparr> heap := (heap st)
                   (r := set_field (heap st r) (demoFieldName t)
                           (Num (js_add (Fin 10)
                                   (js_mul (Math_floor (num_of_nat (index mod 5))) (Fin 20))))) \<rparr>
         | Scatter \<Rightarrow>
             st\<lparr> heap := (heap st)
                   (r := set_field (heap st r) (demoFieldName t)
                           (Num (js_mul (mrandom (randomCalls st)) (Fin 100)))),
                 randomCalls := Suc (randomCalls st) \<rparr>
         | _ \<Rightarrow>
             st\<lparr> heap := (heap st)
                   (r := set_field (heap st r) (demoFieldName t)
                           (Num (js_add
                                   (js_mul (msin (js_mul (num_of_nat index) (fl (3 / 10))))
                                      (Fin 50))
                                   (Fin 50)))) \<rparr>))"

definition generateDemoData ::
  "(jsnum \<Rightarrow> jsnum) \<Rightarrow> (nat \<Rightarrow> jsnum) \<Rightarrow> chartType \<Rightarrow> dataset \<Rightarrow> dashboard
     \<Rightarrow> string \<times> dashboard" where
  "generateDemoData msin mrandom t cd st =
     (let enhancedData = rows cd;
          demoField = demoFieldName t;
          st' = fold (demoStep msin mrandom t) (zip enhancedData [0..<length enhancedData]) st
      in (demoField,
          st'\<lparr> currentData := Some \<lparr> headers = headers cd @ [demoField], rows = enhancedData \<rparr> \<rparr>))"

text \<open>
  The field selection of \<open>handleAddChart\<close>. The candidate pools are computed once, from
  the rows as they are when the handler starts; \<open>None\<close> stands for \<open>undefined\<close> (no
  header) and for \<open>null\<close> (no group-by field).
\<close>

definition firstHeader :: "string list \<Rightarrow> string option" where
  "firstHeader hs = (case hs of [] \<Rightarrow> None | h # _ \<Rightarrow> Some h)"

definition yOrDemo ::
  "(jsnum \<Rightarrow> jsnum) \<Rightarrow> (nat \<Rightarrow> jsnum) \<Rightarrow> chartType \<Rightarrow> dataset \<Rightarrow> string list \<Rightarrow> string list
     \<Rightarrow> dashboard \<Rightarrow> string option \<times> dashboard" where
  "yOrDemo msin mrandom t cd scored numeric st =
     (if length scored > 0 then (Some (scored ! 0), st)
      else if length numeric > 0 then (Some (numeric ! 0), st)
      else (case generateDemoData msin mrandom t cd st of (f, st') \<Rightarrow> (Some f, st')))"

definition selectFields ::
  "(jsnum \<Rightarrow> jsnum) \<Rightarrow> (nat \<Rightarrow> jsnum) \<Rightarrow> chartType \<Rightarrow> dataset \<Rightarrow> dashboard
     \<Rightarrow> (string option \<times> string option \<times> string option) \<times> dashboard" where
  "selectFields msin mrandom t cd st =
     (let hs = headers cd;
          rs = deref st (rows cd);
          numeric = numericFields hs rs;
          scored = scoredNumericFields hs rs;
          dates = dateFields hs rs;
          categories = categoryFields hs rs;
          good = goodCategoryFields hs rs;
          xAxisField0 = firstHeader hs;
          yAxisField0 = (if length hs > 1 then Some (hs ! 1) else firstHeader hs)
      in case t of
           Pie \<Rightarrow>
             (let xAxisField = (if length good > 0 then Some (good ! 0)
                                else if length categories > 0 then Some (categories ! 0)
                                else xAxisField0)
              in case yOrDemo msin mrandom t cd scored numeric st of
                   (yAxisField, st') \<Rightarrow> ((xAxisField, yAxisField, None), st'))
         | Scatter \<Rightarrow>
             (let groupByField = (if length good > 0 then Some (good ! 0) else None)
              in if length scored \<ge> 2
                 then ((Some (scored ! 0), Some (scored ! 1), groupByField), st)
                 else if length numeric \<ge> 2
                 then ((Some (numeric ! 0), Some (numeric ! 1), groupByField), st)
                 else (case (if length numeric > 0 then (numeric ! 0, st)
                             else generateDemoData msin mrandom t cd st) of
                         (xf, st1) \<Rightarrow>
                           (case generateDemoData msin mrandom t cd st1 of
                              (yf, st2) \<Rightarrow> ((Some xf, Some yf, groupByField), st2))))
         | _ \<Rightarrow>
             (let xAxisField = (if length dates > 0 then Some (dates ! 0)
                                else if length good > 0 then Some (good ! 0)
                                else if length categories > 0 then Some (categories ! 0)
                                else xAxisField0);
                  groupByField =
                    (if length good > 1
                     then (case find (\<lambda>f. Some f \<noteq> xAxisField) good of
                             None \<Rightarrow> None
                           | Some f \<Rightarrow> if f = [] then None else Some f)
                     else if length good = 1 \<and> Some (good ! 0) \<noteq> xAxisField
                     then Some (good ! 0)
                     else None)
              in case yOrDemo msin mrandom t cd scored numeric st of
                   (yAxisField, st') \<Rightarrow> ((xAxisField, yAxisField, groupByField), st')))"

definition handleAddChart ::
  "(jsnum \<Rightarrow> jsnum) \<Rightarrow> (nat \<Rightarrow> jsnum) \<Rightarrow> int \<Rightarrow> chartType \<Rightarrow> overrides \<Rightarrow> dashboard \<Rightarrow> dashboard" where
  "handleAddChart msin mrandom now t cfg st =
     (case currentData st of
        None \<Rightarrow> st
      | Some cd \<Rightarrow>
          (case selectFields msin mrandom t cd st of
             ((xAxisField, yAxisField, groupByField), st') \<Rightarrow>
               (let newChart =
                      \<lparr> chart_id = now,
                        chart_kind = t,
                        config =
                          \<lparr> chart_type = t,
                            xAxis = (case o_xAxis cfg of None \<Rightarrow> xAxisField | Some v \<Rightarrow> Some v),
                            yAxis = (case o_yAxis cfg of None \<Rightarrow> yAxisField | Some v \<Rightarrow> Some v),
                            groupBy = (case o_groupBy cfg of None \<Rightarrow> groupByField | Some v \<Rightarrow> Some v),
                            title = (case o_title cfg of None \<Rightarrow> Some (defaultTitle t)
                                      | Some v \<Rightarrow> Some v),
                            margin = (20, 30, 40, 40) \<rparr> \<rparr>
                in st'\<lparr> charts := charts st' @ [newChart] \<rparr>)))"

definition noOverrides :: overrides where
  "noOverrides = \<lparr> o_xAxis = None, o_yAxis = None, o_groupBy = None, o_title = None \<rparr>"

subsection \<open>Strings with a numeric prefix\<close>


subsection \<open>The rows of scenario A\<close>





section \<open>Rounding to the nearest double\<close>

text \<open>
  For \<open>1 \<le> x < 2^1000\<close> the rounded value is finite and within the relative error
  \<open>2^-53\<close> of \<open>x\<close>.
\<close>

lemma binade_ge1:
  assumes "1 \<le> x"
  shows "0 \<le> binade x" and "2 ^ nat (binade x) \<le> x" and "x < 2 * 2 ^ nat (binade x)"
proof -
  have pos: "0 < \<lfloor>x\<rfloor>" using assms by linarith
  have e: "binade x = bitlen \<lfloor>x\<rfloor> - 1" using assms by (simp add: binade_def)
  have b1: "1 \<le> bitlen \<lfloor>x\<rfloor>" using pos by (simp add: bitlen_alt_def)
  show "0 \<le> binade x" using b1 e by simp
  from bitlen_bounds [OF pos]
  have lo: "(2::int) ^ nat (binade x) \<le> \<lfloor>x\<rfloor>" and hi: "\<lfloor>x\<rfloor> < (2::int) ^ nat (bitlen \<lfloor>x\<rfloor>)"
    by (simp_all add: e)
  have "of_int ((2::int) ^ nat (binade x)) \<le> (of_int \<lfloor>x\<rfloor> :: rat)"
    using lo by (simp only: of_int_le_iff)
  also have "\<dots> \<le> x" by simp
  finally show "2 ^ nat (binade x) \<le> x" by simp
  have "nat (bitlen \<lfloor>x\<rfloor>) = Suc (nat (binade x))" using b1 e by simp
  with hi have "\<lfloor>x\<rfloor> + 1 \<le> 2 * (2::int) ^ nat (binade x)" by simp
  then have "(of_int (\<lfloor>x\<rfloor> + 1) :: rat) \<le> of_int (2 * (2::int) ^ nat (binade x))"
    by (simp only: of_int_le_iff)
  moreover have "x < of_int (\<lfloor>x\<rfloor> + 1)" by linarith
  ultimately show "x < 2 * 2 ^ nat (binade x)" by simp
qed




lemma fl_zero: "fl 0 = Fin 0"
  by (simp add: fl_def round_half_even_def Let_def)

text \<open>
  A concrete rounding is checked against its definition: \<open>fl x\<close> is the multiple
  \<open>n * 2^(e-52)\<close> when \<open>2^e \<le> x < 2^(e+1)\<close> and \<open>n\<close> is strictly within a half of
  \<open>x / 2^(e-52)\<close>. Rounding is odd: \<open>fl (-x) = - fl x\<close>.
\<close>

lemma binade_unique:
  assumes "2 ^ e \<le> x" and "x < 2 * 2 ^ e"
  shows "binade x = int e"
proof -
  have x1: "1 \<le> x"
  proof -
    have "(1::rat) \<le> 2 ^ e" by simp
    with assms(1) show ?thesis by linarith
  qed
  note b = binade_ge1 [OF x1]
  define d where "d = nat (binade x)"
  have d: "binade x = int d" using b(1) by (simp add: d_def)
  have lo: "2 ^ d \<le> x" and hi: "x < 2 * 2 ^ d" using b by (simp_all add: d_def)
  have "(2::rat) ^ d < 2 ^ Suc e" using lo assms(2) by simp
  then have 1: "d < Suc e" by (intro power_less_imp_less_exp [of "2::rat"]) simp_all
  have "(2::rat) ^ e < 2 ^ Suc d" using hi assms(1) by simp
  then have 2: "e < Suc d" by (intro power_less_imp_less_exp [of "2::rat"]) simp_all
  from 1 2 show ?thesis by (simp add: d)
qed

lemma round_half_even_near:
  assumes "\<bar>of_int n - q\<bar> < 1 / 2"
  shows "round_half_even q = n"
proof -
  have a: "of_int \<lfloor>q\<rfloor> \<le> q" "q < of_int \<lfloor>q\<rfloor> + 1" by linarith+
  show ?thesis
  proof (cases "q - of_int \<lfloor>q\<rfloor> < 1 / 2")
    case True
    have "q - 1 / 2 < (of_int n :: rat)" "(of_int n :: rat) < q + 1 / 2" using assms by linarith+
    with True a have "- 1 < (of_int n :: rat) - of_int \<lfloor>q\<rfloor>"
      "(of_int n :: rat) - of_int \<lfloor>q\<rfloor> < 1" by linarith+
    then have "\<bar>(of_int n :: rat) - of_int \<lfloor>q\<rfloor>\<bar> < 1" by (simp add: abs_less_iff)
    then have "(of_int \<bar>n - \<lfloor>q\<rfloor>\<bar> :: rat) < of_int 1" by simp
    then have "\<bar>n - \<lfloor>q\<rfloor>\<bar> < 1" by (simp only: of_int_less_iff)
    then have "n = \<lfloor>q\<rfloor>" by simp
    with True show ?thesis by (simp add: round_half_even_def Let_def)
  next
    case False
    have ne: "q - of_int \<lfloor>q\<rfloor> \<noteq> 1 / 2"
    proof
      assume h: "q - of_int \<lfloor>q\<rfloor> = 1 / 2"
      with assms have "\<bar>(of_int n :: rat) - of_int \<lfloor>q\<rfloor> - 1 / 2\<bar> < 1 / 2" by linarith
      then have "0 < (of_int n :: rat) - of_int \<lfloor>q\<rfloor>" "(of_int n :: rat) - of_int \<lfloor>q\<rfloor> < 1"
        by linarith+
      then have "0 < (of_int (n - \<lfloor>q\<rfloor>) :: rat)" "(of_int (n - \<lfloor>q\<rfloor>) :: rat) < 1"
        by simp_all
      then have "0 < n - \<lfloor>q\<rfloor>" "n - \<lfloor>q\<rfloor> < 1" by (simp_all only: of_int_0_less_iff of_int_less_1_iff)
      then show False by simp
    qed
    with False have gt: "1 / 2 < q - of_int \<lfloor>q\<rfloor>" by simp
    have "q - 1 / 2 < (of_int n :: rat)" "(of_int n :: rat) < q + 1 / 2" using assms by linarith+
    with a gt have "- 1 < (of_int n :: rat) - (of_int \<lfloor>q\<rfloor> + 1)"
      "(of_int n :: rat) - (of_int \<lfloor>q\<rfloor> + 1) < 1" by linarith+
    then have "\<bar>(of_int n :: rat) - of_int (\<lfloor>q\<rfloor> + 1)\<bar> < 1" by (simp add: abs_less_iff)
    then have "(of_int \<bar>n - (\<lfloor>q\<rfloor> + 1)\<bar> :: rat) < of_int 1" by simp
    then have "\<bar>n - (\<lfloor>q\<rfloor> + 1)\<bar> < 1" by (simp only: of_int_less_iff)
    then have "n = \<lfloor>q\<rfloor> + 1" by simp
    with False gt show ?thesis by (simp add: round_half_even_def Let_def)
  qed
qed

lemma round_half_even_of_int: "round_half_even (of_int n) = n"
  by (rule round_half_even_near) simp

lemma fl_eqI:
  assumes lo: "2 ^ e \<le> x" and hi: "x < 2 * 2 ^ e" and e: "e < 1000"
    and n: "\<bar>of_int n - x * 2 ^ 52 / 2 ^ e\<bar> < 1 / 2"
  shows "fl x = Fin (of_int n * 2 ^ e / 2 ^ 52)"
proof -
  have b: "binade x = int e" using lo hi by (rule binade_unique)
  define u :: rat where "u = 2 ^ e / 2 ^ 52"
  have u: "ulp_of x = u"
  proof -
    have "power_int (2::rat) (int e - 52) = power_int 2 (int e) / power_int 2 52"
      by (subst power_int_diff) simp_all
    then show ?thesis by (simp add: ulp_of_def b u_def)
  qed
  have xq: "x / u = x * 2 ^ 52 / 2 ^ e" by (simp add: u_def)
  have r: "round_half_even (x / u) = n" using n by (intro round_half_even_near) (simp only: xq)
  have x1: "1 \<le> x"
  proof -
    have "(1::rat) \<le> 2 ^ e" by simp
    with lo show ?thesis by linarith
  qed
  have x0: "0 \<le> x * 2 ^ 52 / 2 ^ e" using x1 by simp
  have "(of_int n :: rat) \<le> x * 2 ^ 52 / 2 ^ e + 1 / 2" using n by linarith
  moreover have "- 1 < (of_int n :: rat)" using n x0 by linarith
  ultimately have "\<bar>of_int n :: rat\<bar> \<le> x * 2 ^ 52 / 2 ^ e + 1" using x0 by linarith
  then have "\<bar>of_int n :: rat\<bar> \<le> x / u + 1" by (simp only: xq)
  moreover have upos: "0 < u" by (simp add: u_def)
  ultimately have "\<bar>of_int n :: rat\<bar> * u \<le> (x / u + 1) * u" by (intro mult_right_mono) simp_all
  also have "\<dots> = x + u" using upos by (simp add: field_simps)
  finally have y: "\<bar>of_int n * u\<bar> \<le> x + u" using upos by (simp add: abs_mult)
  have "u \<le> 2 ^ e"
  proof -
    have "(2::rat) ^ e / 2 ^ 52 \<le> 2 ^ e / 1" by (intro divide_left_mono) simp_all
    then show ?thesis by (simp add: u_def)
  qed
  with y hi have "\<bar>of_int n * u\<bar> < 3 * 2 ^ e" by linarith
  also have "\<dots> \<le> 4 * (2::rat) ^ e" by simp
  also have "\<dots> = 2 ^ (e + 2)" by simp
  also have "\<dots> \<le> (2::rat) ^ 1024" using e by (intro power_increasing) simp_all
  finally have "\<not> 2 ^ 1024 \<le> \<bar>of_int n * u\<bar>" by simp
  then show ?thesis by (simp add: fl_def u r Let_def) (simp add: u_def)
qed

lemma round_half_even_minus: "round_half_even (- q) = - round_half_even q"
proof (cases "q = of_int \<lfloor>q\<rfloor>")
  case True
  then obtain m where "q = of_int m" by blast
  then have "- q = of_int (- m)" by simp
  then show ?thesis using \<open>q = of_int m\<close> by (simp only: round_half_even_of_int)
next
  case False
  then have nf: "\<lfloor>- q\<rfloor> = - \<lfloor>q\<rfloor> - 1"
    by (metis ceiling_def ceiling_altdef diff_minus_eq_add minus_diff_eq neg_equal_iff_equal uminus_add_conv_diff add.commute)
  have a: "of_int \<lfloor>q\<rfloor> < q" "q < of_int \<lfloor>q\<rfloor> + 1" using False by linarith+
  show ?thesis using a
    by (auto simp: round_half_even_def Let_def nf)
qed

lemma fl_minus: "fl (- x) = js_neg (fl x)"
proof -
  have u: "ulp_of (- x) = ulp_of x" by (simp add: ulp_of_def binade_def)
  show ?thesis
    by (cases "x = 0")
       (auto simp: fl_def u Let_def round_half_even_minus round_half_even_of_int [of 0, simplified]
          js_neg_def abs_mult)
qed

text \<open>Integers below \<open>2^53\<close> in magnitude are doubles.\<close>

lemma fl_of_nonneg_int:
  assumes "0 \<le> n" and "n < 2 ^ 53"
  shows "fl (of_int n) = Fin (of_int n)"
proof (cases "n = 0")
  case True
  then show ?thesis by (simp add: fl_zero)
next
  case False
  with assms have pos: "0 < n" by simp
  define e where "e = nat (bitlen n - 1)"
  have b1: "1 \<le> bitlen n" using pos by (simp add: bitlen_alt_def)
  from bitlen_bounds [OF pos] have lo: "2 ^ e \<le> n" and hi': "n < 2 ^ nat (bitlen n)"
    by (simp_all add: e_def)
  have "nat (bitlen n) = Suc e" using b1 by (simp add: e_def)
  with hi' have hi: "n < 2 * 2 ^ e" by simp
  have "(2::int) ^ e < 2 ^ 53" using lo assms(2) by linarith
  then have e53: "e < 53" by (intro power_less_imp_less_exp [of "2::int"]) simp_all
  define m where "m = n * 2 ^ (52 - e)"
  have lo_r: "(2::rat) ^ e \<le> of_int n"
  proof -
    have "(of_int (2 ^ e) :: rat) \<le> of_int n" using lo by (simp only: of_int_le_iff)
    then show ?thesis by simp
  qed
  have hi_r: "(of_int n :: rat) < 2 * 2 ^ e"
  proof -
    have "(of_int n :: rat) < of_int (2 * 2 ^ e)" using hi by (simp only: of_int_less_iff)
    then show ?thesis by simp
  qed
  have p: "(2::rat) ^ 52 = 2 ^ (52 - e) * 2 ^ e"
    using e53 by (simp flip: power_add)
  have q: "(of_int n :: rat) * 2 ^ 52 / 2 ^ e = of_int m"
    by (simp only: p m_def) simp
  have "\<bar>(of_int m :: rat) - of_int n * 2 ^ 52 / 2 ^ e\<bar> < 1 / 2"
    unfolding q by simp
  from fl_eqI [OF lo_r hi_r _ this] e53
  have "fl (of_int n) = Fin (of_int m * 2 ^ e / 2 ^ 52)" by simp
  moreover have "(of_int m :: rat) * 2 ^ e / 2 ^ 52 = of_int n"
    by (simp only: p m_def) simp
  ultimately show ?thesis by simp
qed

lemma fl_of_int:
  assumes "\<bar>n\<bar> < 2 ^ 53"
  shows "fl (of_int n) = Fin (of_int n)"
proof (cases "0 \<le> n")
  case True
  with assms show ?thesis by (intro fl_of_nonneg_int) simp_all
next
  case False
  with assms have "fl (of_int (- n)) = Fin (of_int (- n))" by (intro fl_of_nonneg_int) simp_all
  then have "fl (- of_int n) = Fin (- of_int n)" by simp
  then have "js_neg (fl (of_int n)) = Fin (- of_int n)" by (simp only: fl_minus)
  then show ?thesis by (cases "fl (of_int n)") (simp_all add: js_neg_def)
qed

lemma fl_numeral: "(numeral k :: int) < 2 ^ 53 \<Longrightarrow> fl (numeral k) = Fin (numeral k)"
  using fl_of_int [of "numeral k"] by simp

lemma fl_one: "fl 1 = Fin 1"
  using fl_of_int [of 1] by simp



text \<open>
  The exponent is right for every non-zero rational, rounding keeps the sign, and two
  different doubles differ by at least \<open>2^-1074\<close>: the comparator \<open>b - a\<close> is positive
  exactly when \<open>a < b\<close>.
\<close>

lemma binade_abs: "binade \<bar>x\<bar> = binade x"
  by (simp add: binade_def)

lemma binade_small:
  assumes "0 < x" and "x < 1"
  shows "\<exists>m::nat. binade x = - int m \<and> 1 / 2 ^ m \<le> x \<and> x < 2 / 2 ^ m"
proof -
  define y where "y = 1 / x"
  define c where "c = \<lceil>y\<rceil>"
  have y1: "1 < y" using assms by (simp add: y_def)
  then have c2: "2 \<le> c" unfolding c_def by linarith
  have cy: "of_int c - 1 < y" "y \<le> of_int c" unfolding c_def by linarith+
  have pos: "0 < c - 1" using c2 by simp
  define m where "m = nat (bitlen (c - 1))"
  have b1: "1 \<le> bitlen (c - 1)" using pos by (simp add: bitlen_alt_def)
  have bm: "bitlen (c - 1) = int m" using b1 by (simp add: m_def)
  have m1: "1 \<le> m" using b1 by (simp add: m_def)
  from bitlen_bounds [OF pos]
  have lo: "2 ^ (m - 1) \<le> c - 1" and hi: "c - 1 < 2 ^ m"
    using b1 by (simp_all add: m_def nat_diff_distrib)
  have b: "binade x = - int m"
    using assms by (simp add: binade_def bm flip: y_def c_def)
  have "c \<le> 2 ^ m" using hi by simp
  then have "(of_int c :: rat) \<le> of_int (2 ^ m)" by (simp only: of_int_le_iff)
  then have "(of_int c :: rat) \<le> 2 ^ m" by simp
  then have "y \<le> 2 ^ m" using cy by linarith
  then have "1 / 2 ^ m \<le> 1 / y" using y1 by (intro divide_left_mono) simp_all
  then have l: "1 / 2 ^ m \<le> x" using assms by (simp add: y_def)
  have "(of_int (2 ^ (m - 1)) :: rat) \<le> of_int (c - 1)" using lo by (simp only: of_int_le_iff)
  then have "(2::rat) ^ (m - 1) \<le> of_int c - 1" by simp
  then have "2 ^ (m - 1) < y" using cy by linarith
  then have "1 / y < 1 / 2 ^ (m - 1)" using y1 by (intro divide_strict_left_mono) simp_all
  then have "x < 1 / 2 ^ (m - 1)" using assms by (simp add: y_def)
  moreover have "(2::rat) ^ m = 2 * 2 ^ (m - 1)" using m1 by (cases m) simp_all
  ultimately have u: "x < 2 / 2 ^ m" by simp
  from b l u show ?thesis by blast
qed

lemma binade_bounds:
  assumes "x \<noteq> 0"
  shows "power_int 2 (binade x) \<le> \<bar>x\<bar> \<and> \<bar>x\<bar> < 2 * power_int 2 (binade x)"
proof (cases "1 \<le> \<bar>x\<bar>")
  case True
  from binade_ge1 [OF True] show ?thesis
    by (simp add: binade_abs power_int_def)
next
  case False
  with assms have "0 < \<bar>x\<bar>" "\<bar>x\<bar> < 1" by simp_all
  from binade_small [OF this] obtain m :: nat where
    "binade x = - int m" "1 / 2 ^ m \<le> \<bar>x\<bar>" "\<bar>x\<bar> < 2 / 2 ^ m"
    unfolding binade_abs by blast
  then show ?thesis by (simp add: power_int_minus field_simps)
qed

lemma ulp_of_pos: "0 < ulp_of x"
  by (simp add: ulp_of_def)

lemma ulp_of_le:
  assumes "power_int 2 (- 1074) \<le> \<bar>x\<bar>"
  shows "ulp_of x \<le> \<bar>x\<bar>"
proof (cases "binade x \<le> - 1022")
  case True
  then have "ulp_of x = power_int 2 (- 1074)" by (simp add: ulp_of_def max_def)
  with assms show ?thesis by simp
next
  case False
  have x0: "x \<noteq> 0"
  proof
    assume "x = 0"
    with assms have "power_int (2::rat) (- 1074) \<le> 0" by simp
    moreover have "0 < power_int (2::rat) (- 1074)" by simp
    ultimately show False by linarith
  qed
  from False have "ulp_of x = power_int 2 (binade x - 52)" by (simp add: ulp_of_def max_def)
  also have "\<dots> \<le> power_int 2 (binade x)" by (intro power_int_increasing) simp_all
  also have "\<dots> \<le> \<bar>x\<bar>" using binade_bounds [OF x0] by simp
  finally show ?thesis .
qed

lemma round_half_even_ge: "of_int \<lfloor>q\<rfloor> \<le> (of_int (round_half_even q) :: rat)"
  by (simp add: round_half_even_def Let_def)

lemma fl_pos:
  assumes "0 < x" and "power_int 2 (- 1074) \<le> x"
  shows "js_lt (Fin 0) (fl x)"
proof -
  have "ulp_of x \<le> x" using ulp_of_le [of x] assms by simp
  then have "1 \<le> x / ulp_of x" using ulp_of_pos [of x] by (simp add: pos_le_divide_eq)
  then have "1 \<le> \<lfloor>x / ulp_of x\<rfloor>" by (simp add: le_floor_iff)
  moreover have "\<lfloor>x / ulp_of x\<rfloor> \<le> round_half_even (x / ulp_of x)"
    using round_half_even_ge [of "x / ulp_of x"] by (simp only: of_int_le_iff)
  ultimately have "1 \<le> round_half_even (x / ulp_of x)" by linarith
  then have "0 < (of_int (round_half_even (x / ulp_of x)) :: rat) * ulp_of x"
    using ulp_of_pos [of x] by simp
  with assms(1) show ?thesis by (simp add: fl_def Let_def)
qed

lemma is_double_grid:
  assumes "is_double x"
  shows "\<exists>k::int. x = of_int k * power_int 2 (- 1074)"
proof -
  define j where "j = max (binade x) (- 1022) + 1022"
  have j0: "0 \<le> j" by (simp add: j_def)
  have "ulp_of x = power_int 2 (j + (- 1074))" by (simp add: ulp_of_def j_def)
  also have "\<dots> = power_int 2 j * power_int 2 (- 1074)" by (subst power_int_add) simp_all
  also have "power_int (2::rat) j = of_int (2 ^ nat j)" using j0 by (simp add: power_int_def)
  finally have u: "ulp_of x = of_int (2 ^ nat j) * power_int 2 (- 1074)" .
  from assms have "x = of_int (round_half_even (x / ulp_of x)) * ulp_of x"
    by (simp add: is_double_def fl_def Let_def split: if_splits)
  then have "x = of_int (round_half_even (x / ulp_of x) * 2 ^ nat j) * power_int 2 (- 1074)"
    by (simp add: u)
  then show ?thesis by blast
qed

lemma double_diff_pos:
  assumes "is_double a" and "is_double b" and "a < b"
  shows "power_int 2 (- 1074) \<le> b - a"
proof -
  from is_double_grid [OF assms(1)] obtain k where a: "a = of_int k * power_int 2 (- 1074)" by blast
  from is_double_grid [OF assms(2)] obtain l where b: "b = of_int l * power_int 2 (- 1074)" by blast
  have p: "0 < power_int (2::rat) (- 1074)" by simp
  from assms(3) have "of_int k * power_int 2 (- 1074) < (of_int l :: rat) * power_int 2 (- 1074)"
    by (simp only: a b)
  then have "(of_int k :: rat) < of_int l" using p by (simp only: mult_less_cancel_right_pos)
  then have "k + 1 \<le> l" by simp
  then have "(of_int (k + 1) :: rat) \<le> of_int l" by (simp only: of_int_le_iff)
  then have "1 \<le> (of_int l :: rat) - of_int k" by simp
  then have "1 * power_int 2 (- 1074) \<le> ((of_int l :: rat) - of_int k) * power_int 2 (- 1074)"
    using p by (intro mult_right_mono) simp_all
  then show ?thesis by (simp add: a b algebra_simps)
qed

lemma js_sub_Fin: "js_sub (Fin b) (Fin a) = fl (b - a)"
  by (simp add: js_sub_def js_neg_def)

lemma fl_sign_neg:
  assumes "x < 0"
  shows "\<not> js_lt (Fin 0) (fl x)"
proof -
  have u: "0 < ulp_of x" by (rule ulp_of_pos)
  have "x / ulp_of x < 0" using assms u by (simp add: divide_neg_pos)
  then have "\<lfloor>x / ulp_of x\<rfloor> < 0" by (simp add: floor_less_iff)
  then have "\<lfloor>x / ulp_of x\<rfloor> + 1 \<le> 0" by linarith
  moreover have "round_half_even (x / ulp_of x) \<le> \<lfloor>x / ulp_of x\<rfloor> + 1"
    by (simp add: round_half_even_def Let_def)
  ultimately have "round_half_even (x / ulp_of x) \<le> 0" by linarith
  then have "(of_int (round_half_even (x / ulp_of x)) :: rat) * ulp_of x \<le> 0"
    using u by (simp add: mult_le_0_iff)
  with assms show ?thesis by (auto simp: fl_def Let_def)
qed

lemma double_compare:
  assumes "is_double a" and "is_double b"
  shows "js_lt (Fin 0) (js_sub (Fin b) (Fin a)) \<longleftrightarrow> a < b"
proof (cases "a < b")
  case True
  from double_diff_pos [OF assms True] True show ?thesis
    by (simp add: js_sub_Fin fl_pos)
next
  case False
  show ?thesis
  proof (cases "a = b")
    case True
    then show ?thesis by (simp add: js_sub_Fin fl_zero)
  next
    case ne: False
    with False have "b - a < 0" by simp
    from fl_sign_neg [OF this] False show ?thesis by (simp add: js_sub_Fin)
  qed
qed





section \<open>Properties of the reducer\<close>























section \<open>Properties of the cache\<close>

lemma cache_set_lookup:
  "map_of (cache (cache_set key d now c)) key = Some \<lparr> data = d, timestamp = now \<rparr>"
  by (simp add: cache_set_def Let_def update_conv')

lemma cache_set_ttl: "ttl (cache_set key d now c) = ttl c"
  by (simp add: cache_set_def Let_def)

lemma map_of_delete_same: "map_of (AList.delete k al) k = None"
  by (simp add: delete_conv')

text \<open>
  Claim C8. After \<open>set(k, v)\<close> at time \<open>t\<close>, a \<open>get(k)\<close> at time \<open>t'\<close> returns \<open>v\<close> and leaves
  the cache as it is when the age \<open>t' - t\<close> does not exceed \<open>ttl\<close>; when the age exceeds
  \<open>ttl\<close> it returns absent and the entry is gone from the cache afterwards.
\<close>

theorem set_then_get:
  "cache_get k t' (cache_set k v t c) =
     (if t' - t > ttl c
      then (None, (cache_set k v t c)\<lparr> cache := AList.delete k (cache (cache_set k v t c)) \<rparr>)
      else (Some v, cache_set k v t c))
   \<and> (t' - t > ttl c \<longrightarrow> \<not> cache_has k (snd (cache_get k t' (cache_set k v t c))))"
  by (simp add: cache_get_def cache_set_lookup cache_set_ttl cache_has_def map_of_delete_same)

theorem set_then_get_witness:
  "cache_get ''a'' 1000 (cache_set ''a'' (7::nat) 1000 (newDataCache None None))
     = (Some 7, cache_set ''a'' 7 1000 (newDataCache None None))
   \<and> fst (cache_get ''a'' 301001 (cache_set ''a'' (7::nat) 1000 (newDataCache None None))) = None
   \<and> \<not> cache_has ''a'' (snd (cache_get ''a'' 301001 (cache_set ''a'' (7::nat) 1000 (newDataCache None None))))"
proof -
  let ?c = "newDataCache None None :: nat DataCache"
  have t: "ttl ?c = 300000" by (simp add: newDataCache_def)
  have a: "\<not> (1000 - 1000 > ttl ?c)" and b: "301001 - 1000 > ttl ?c"
    by (simp_all add: t)
  from a set_then_get [of "''a''" 1000 "7::nat" 1000 ?c]
  have 1: "cache_get ''a'' 1000 (cache_set ''a'' 7 1000 ?c) = (Some 7, cache_set ''a'' 7 1000 ?c)"
    by simp
  from b set_then_get [of "''a''" 301001 "7::nat" 1000 ?c]
  have 2: "fst (cache_get ''a'' 301001 (cache_set ''a'' 7 1000 ?c)) = None"
    and 3: "\<not> cache_has ''a'' (snd (cache_get ''a'' 301001 (cache_set ''a'' 7 1000 ?c)))"
    by (metis fst_conv)+
  from 1 2 3 show ?thesis by blast
qed

text \<open>
  Claim C10. \<open>has\<close> performs no expiry check: for a key whose entry is older than \<open>ttl\<close>,
  \<open>has\<close> answers true although \<open>get\<close> on the same state returns absent and deletes the
  entry (after which \<open>has\<close> answers false).
\<close>

theorem has_ignores_expiry:
  assumes "map_of (cache c) k = Some e" and "now - timestamp e > ttl c"
  shows "cache_has k c
       \<and> cache_get k now c = (None, c\<lparr> cache := AList.delete k (cache c) \<rparr>)
       \<and> \<not> cache_has k (snd (cache_get k now c))"
  using assms by (simp add: cache_has_def cache_get_def map_of_delete_same)

theorem has_ignores_expiry_witness:
  "cache_has ''a'' (cache_set ''a'' (7::nat) 0 (newDataCache (Some 10) None))
   \<and> fst (cache_get ''a'' 11 (cache_set ''a'' (7::nat) 0 (newDataCache (Some 10) None))) = None
   \<and> \<not> cache_has ''a'' (snd (cache_get ''a'' 11 (cache_set ''a'' (7::nat) 0 (newDataCache (Some 10) None))))"
proof -
  let ?c = "cache_set ''a'' (7::nat) 0 (newDataCache (Some 10) None)"
  have p1: "map_of (cache ?c) ''a'' = Some \<lparr> data = 7, timestamp = 0 \<rparr>"
    by (rule cache_set_lookup)
  have p2: "11 - timestamp \<lparr> data = 7::nat, timestamp = 0 \<rparr> > ttl ?c"
    by (simp add: cache_set_ttl newDataCache_def)
  from has_ignores_expiry [OF p1 p2] show ?thesis by (metis fst_conv)
qed

section \<open>Properties of the pie-slice cap\<close>

lemma js_slice_take: "js_slice xs 0 (Some (int n)) = take n xs"
  by (simp add: js_slice_def Let_def min_def)

lemma js_slice_drop: "js_slice xs (int n) None = drop n xs"
  by (simp add: js_slice_def Let_def min_def)

lemma length_sort_insert: "length (sort_insert c x ys) = Suc (length ys)"
  by (induction ys) simp_all

lemma length_js_sort: "length (js_sort c xs) = length xs"
  by (induction xs) (simp_all add: js_sort_def length_sort_insert)

lemma mset_sort_insert: "mset (sort_insert c x ys) = add_mset x (mset ys)"
  by (induction ys) simp_all

lemma mset_js_sort: "mset (js_sort c xs) = mset xs"
  by (induction xs) (simp_all add: js_sort_def mset_sort_insert)

lemma slice_compare_double:
  assumes "double_valued a" and "double_valued b"
  shows "js_lt (Fin 0) (slice_compare a b) \<longleftrightarrow> fin_val (snd a) < fin_val (snd b)"
proof -
  from assms obtain r s where "snd a = Fin r" "is_double r" "snd b = Fin s" "is_double s"
    unfolding double_valued_def by blast
  then show ?thesis by (simp add: slice_compare_def fin_val_def double_compare)
qed

lemma sort_insert_descending:
  assumes "double_valued x" and "\<forall>y\<in>set ys. double_valued y"
    and "sorted_wrt (\<lambda>a b. fin_val (snd b) \<le> fin_val (snd a)) ys"
  shows "sorted_wrt (\<lambda>a b. fin_val (snd b) \<le> fin_val (snd a)) (sort_insert slice_compare x ys)"
  using assms
proof (induction ys)
  case Nil
  then show ?case by simp
next
  case (Cons y ys)
  show ?case
  proof (cases "js_lt (Fin 0) (slice_compare x y)")
    case True
    then have xy: "fin_val (snd x) < fin_val (snd y)"
      using Cons.prems by (simp add: slice_compare_double)
    have "sorted_wrt (\<lambda>a b. fin_val (snd b) \<le> fin_val (snd a)) (sort_insert slice_compare x ys)"
      using Cons by simp
    moreover have "\<forall>z\<in>set (sort_insert slice_compare x ys). fin_val (snd z) \<le> fin_val (snd y)"
    proof
      fix z assume "z \<in> set (sort_insert slice_compare x ys)"
      then have "z \<in># mset (sort_insert slice_compare x ys)" by simp
      then have "z = x \<or> z \<in> set ys" by (simp add: mset_sort_insert)
      with xy Cons.prems(3) show "fin_val (snd z) \<le> fin_val (snd y)" by auto
    qed
    ultimately show ?thesis using True by simp
  next
    case False
    then have yx: "fin_val (snd y) \<le> fin_val (snd x)"
      using Cons.prems by (simp add: slice_compare_double)
    have "\<forall>z\<in>set ys. fin_val (snd z) \<le> fin_val (snd x)"
      using Cons.prems(3) yx by auto
    with yx Cons.prems(3) False show ?thesis by simp
  qed
qed

lemma js_sort_descending:
  assumes "\<forall>y\<in>set xs. double_valued y"
  shows "sorted_wrt (\<lambda>a b. fin_val (snd b) \<le> fin_val (snd a)) (js_sort slice_compare xs)"
  using assms
proof (induction xs)
  case Nil
  then show ?case by (simp add: js_sort_def)
next
  case (Cons x xs)
  have s: "js_sort slice_compare (x # xs) = sort_insert slice_compare x (js_sort slice_compare xs)"
    by (simp add: js_sort_def)
  have "\<forall>y\<in>set (js_sort slice_compare xs). double_valued y"
  proof
    fix y assume "y \<in> set (js_sort slice_compare xs)"
    then have "y \<in># mset (js_sort slice_compare xs)" by simp
    then have "y \<in> set xs" by (simp add: mset_js_sort)
    with Cons.prems show "double_valued y" by simp
  qed
  with Cons show ?case unfolding s by (intro sort_insert_descending) simp_all
qed

lemma sorted_wrt_take_drop:
  assumes "sorted_wrt P xs"
  shows "\<forall>a\<in>set (take n xs). \<forall>b\<in>set (drop n xs). P a b"
proof -
  have "sorted_wrt P (take n xs @ drop n xs)" using assms by simp
  then show ?thesis unfolding sorted_wrt_append by blast
qed

lemma exact_total_append: "exact_total (xs @ ys) = exact_total xs + exact_total ys"
  by (simp add: exact_total_def)

lemma exact_total_mset: "mset xs = mset ys \<Longrightarrow> exact_total xs = exact_total ys"
proof -
  assume "mset xs = mset ys"
  then have "image_mset (\<lambda>s. fin_val (snd s)) (mset xs)
           = image_mset (\<lambda>s. fin_val (snd s)) (mset ys)" by simp
  then have "mset (map (\<lambda>s. fin_val (snd s)) xs) = mset (map (\<lambda>s. fin_val (snd s)) ys)"
    by (simp only: mset_map)
  then have "sum_mset (mset (map (\<lambda>s. fin_val (snd s)) xs))
           = sum_mset (mset (map (\<lambda>s. fin_val (snd s)) ys))" by simp
  then show ?thesis by (simp only: exact_total_def sum_mset_sum_list)
qed

lemma fold_add_exact:
  assumes "\<forall>s\<in>set xs. nat_valued s" and "of_nat a + exact_total xs < 2 ^ 53"
  shows "fold (\<lambda>item sum. js_add sum (snd item)) xs (Fin (of_nat a))
           = Fin (of_nat a + exact_total xs)"
  using assms
proof (induction xs arbitrary: a)
  case Nil
  then show ?case by (simp add: exact_total_def)
next
  case (Cons x xs)
  from Cons.prems(1) obtain k :: nat where k: "snd x = Fin (of_nat k)"
    unfolding nat_valued_def by auto
  have t: "exact_total (x # xs) = of_nat k + exact_total xs"
    by (simp add: exact_total_def k fin_val_def)
  have nn: "0 \<le> exact_total xs" unfolding exact_total_def
  proof (rule sum_list_nonneg)
    fix v assume "v \<in> set (map (\<lambda>s. fin_val (snd s)) xs)"
    then obtain s where "s \<in> set xs" "v = fin_val (snd s)" by auto
    with Cons.prems(1) show "0 \<le> v" unfolding nat_valued_def by (auto simp: fin_val_def)
  qed
  have "(of_nat (a + k) :: rat) < 2 ^ 53" using Cons.prems(2) nn by (simp add: t)
  then have "(of_int (int (a + k)) :: rat) < of_int (2 ^ 53)" by simp
  then have "int (a + k) < 2 ^ 53" by (simp only: of_int_less_iff)
  then have "fl (of_int (int (a + k))) = Fin (of_int (int (a + k)))"
    by (intro fl_of_nonneg_int) simp_all
  then have step: "js_add (Fin (of_nat a)) (snd x) = Fin (of_nat (a + k))"
    by (simp add: k)
  have "fold (\<lambda>item sum. js_add sum (snd item)) xs (Fin (of_nat (a + k)))
          = Fin (of_nat (a + k) + exact_total xs)"
    using Cons.prems by (intro Cons.IH) (simp_all add: t)
  then show ?case by (simp add: step t)
qed

lemma otherValue_exact:
  assumes "\<forall>s\<in>set xs. nat_valued s" and "exact_total xs < 2 ^ 53"
  shows "otherValue xs = Fin (exact_total xs)"
  using fold_add_exact [of xs 0] assms by (simp add: otherValue_def)


lemma fl_neg_numeral:
  "(numeral k :: int) < 2 ^ 53 \<Longrightarrow> fl (- numeral k) = Fin (- numeral k)"
  using fl_of_int [of "- numeral k"] by simp

lemma fl_neg_one: "fl (- 1) = Fin (- 1)"
  using fl_of_int [of "- 1"] by simp

lemma fl_pos_ge1: "1 \<le> x \<Longrightarrow> js_lt (Fin 0) (fl x)"
proof -
  assume x: "1 \<le> x"
  have "power_int (2::rat) (- 1074) \<le> power_int 2 0" by (intro power_int_increasing) simp_all
  with x have "power_int 2 (- 1074) \<le> x" by simp
  with x show ?thesis by (intro fl_pos) simp_all
qed

lemma double_valued_numeral: "(numeral k :: int) < 2 ^ 53 \<Longrightarrow> double_valued (n, Fin (numeral k))"
  by (simp add: double_valued_def is_double_def fl_numeral)

lemma nat_valued_numeral: "nat_valued (n, Fin (numeral k))"
  unfolding nat_valued_def by (rule exI [of _ "numeral k"]) simp

lemma fl_2_54: "fl 18014398509481984 = Fin 18014398509481984"
  using fl_eqI [of 54 18014398509481984 "2 ^ 52"] by simp

lemma fl_2_54_plus_1: "fl 18014398509481985 = Fin 18014398509481984"
  using fl_eqI [of 54 18014398509481985 "2 ^ 52"] by simp

text \<open>
  Claim C4, as the code has it. For more than 8 slices with finite values the cap outputs
  exactly 8 slices: the first 7 of the stable descending sort, each at least as large as
  every collapsed slice, and one slice \<open>"Other"\<close> whose value is the sum of the remaining
  slices as the doubles add up, from 0 and left to right. The total of the output equals
  the total of the input whenever that sum is exact, in particular when all values are
  natural numbers with a total below \<open>2^53\<close>.
\<close>

theorem pie_cap:
  assumes "length pieData > 8" and "\<forall>s\<in>set pieData. double_valued s"
  shows "length (capSlices pieData) = 8
       \<and> capSlices pieData
           = take 7 (js_sort slice_compare pieData)
             @ [(Str ''Other'', otherValue (drop 7 (js_sort slice_compare pieData)))]
       \<and> mset (js_sort slice_compare pieData) = mset pieData
       \<and> (\<forall>a\<in>set (take 7 (js_sort slice_compare pieData)).
            \<forall>b\<in>set (drop 7 (js_sort slice_compare pieData)).
              fin_val (snd b) \<le> fin_val (snd a))
       \<and> (otherValue (drop 7 (js_sort slice_compare pieData))
             = Fin (exact_total (drop 7 (js_sort slice_compare pieData)))
            \<longrightarrow> exact_total (capSlices pieData) = exact_total pieData)
       \<and> ((\<forall>s\<in>set pieData. nat_valued s) \<and> exact_total pieData < 2 ^ 53
            \<longrightarrow> exact_total (capSlices pieData) = exact_total pieData)"
proof -
  let ?sorted = "js_sort slice_compare pieData"
  let ?rest = "drop 7 ?sorted"
  have cap: "capSlices pieData = take 7 ?sorted @ [(Str ''Other'', otherValue ?rest)]"
    using assms(1) js_slice_take [of ?sorted 7] js_slice_drop [of ?sorted 7]
    by (simp add: capSlices_def Let_def)
  have len: "length (capSlices pieData) = 8"
    using assms(1) by (simp add: cap length_js_sort)
  have perm: "mset ?sorted = mset pieData" by (rule mset_js_sort)
  have top: "\<forall>a\<in>set (take 7 ?sorted). \<forall>b\<in>set ?rest. fin_val (snd b) \<le> fin_val (snd a)"
    using js_sort_descending [OF assms(2)] by (rule sorted_wrt_take_drop)
  have split: "exact_total pieData = exact_total (take 7 ?sorted) + exact_total ?rest"
  proof -
    have "exact_total pieData = exact_total ?sorted" using perm by (intro exact_total_mset) simp
    also have "\<dots> = exact_total (take 7 ?sorted @ ?rest)" by simp
    finally show ?thesis by (simp only: exact_total_append)
  qed
  have cons: "exact_total (capSlices pieData) = exact_total pieData"
    if "otherValue ?rest = Fin (exact_total ?rest)"
    using that by (simp add: cap exact_total_append split) (simp add: exact_total_def fin_val_def)
  have ints: "exact_total (capSlices pieData) = exact_total pieData"
    if h: "(\<forall>s\<in>set pieData. nat_valued s) \<and> exact_total pieData < 2 ^ 53"
  proof -
    have r: "\<forall>s\<in>set ?rest. nat_valued s"
    proof
      fix s assume "s \<in> set ?rest"
      then have "s \<in> set ?sorted" by (rule in_set_dropD)
      then have "s \<in># mset ?sorted" by simp
      then have "s \<in> set pieData" by (simp add: perm)
      with h show "nat_valued s" by simp
    qed
    have "0 \<le> exact_total (take 7 ?sorted)" unfolding exact_total_def
    proof (rule sum_list_nonneg)
      fix v assume "v \<in> set (map (\<lambda>s. fin_val (snd s)) (take 7 ?sorted))"
      then obtain s where s: "s \<in> set (take 7 ?sorted)" "v = fin_val (snd s)" by auto
      from s(1) have "s \<in> set ?sorted" by (rule in_set_takeD)
      then have "s \<in># mset ?sorted" by simp
      then have "s \<in> set pieData" by (simp add: perm)
      with h s(2) show "0 \<le> v" unfolding nat_valued_def by (auto simp: fin_val_def)
    qed
    with h split have "exact_total ?rest < 2 ^ 53" by linarith
    from otherValue_exact [OF r this] show ?thesis by (rule cons)
  qed
  from len cap perm top cons ints show ?thesis by blast
qed


theorem pie_cap_witness:
  "capSlices [(Str ''a'', Fin 3), (Str ''b'', Fin 2), (Str ''c'', Fin 4), (Str ''d'', Fin 2),
              (Str ''e'', Fin 5), (Str ''f'', Fin 9), (Str ''g'', Fin 2), (Str ''h'', Fin 6),
              (Str ''i'', Fin 5)]
     = [(Str ''f'', Fin 9), (Str ''h'', Fin 6), (Str ''e'', Fin 5), (Str ''i'', Fin 5),
        (Str ''c'', Fin 4), (Str ''a'', Fin 3), (Str ''b'', Fin 2), (Str ''Other'', Fin 4)]
   \<and> exact_total (capSlices
         [(Str ''a'', Fin 3), (Str ''b'', Fin 2), (Str ''c'', Fin 4), (Str ''d'', Fin 2),
          (Str ''e'', Fin 5), (Str ''f'', Fin 9), (Str ''g'', Fin 2), (Str ''h'', Fin 6),
          (Str ''i'', Fin 5)]) = 38"
proof -
  let ?ps = "[(Str ''a'', Fin 3), (Str ''b'', Fin 2), (Str ''c'', Fin 4), (Str ''d'', Fin 2),
              (Str ''e'', Fin 5), (Str ''f'', Fin 9), (Str ''g'', Fin 2), (Str ''h'', Fin 6),
              (Str ''i'', Fin 5)] :: slice list"
  have a: "length ?ps > 8" by simp
  have b: "\<forall>s\<in>set ?ps. double_valued s" by (simp add: double_valued_numeral)
  have c: "\<forall>s\<in>set ?ps. nat_valued s" by (simp add: nat_valued_numeral)
  have t: "exact_total ?ps = 38" by (simp add: exact_total_def fin_val_def)
  have s: "js_sort slice_compare ?ps
             = [(Str ''f'', Fin 9), (Str ''h'', Fin 6), (Str ''e'', Fin 5), (Str ''i'', Fin 5),
                (Str ''c'', Fin 4), (Str ''a'', Fin 3), (Str ''b'', Fin 2), (Str ''d'', Fin 2),
                (Str ''g'', Fin 2)]"
    by (simp add: js_sort_def slice_compare_def js_sub_Fin fl_numeral fl_neg_numeral fl_zero fl_one fl_neg_one)
  have o: "otherValue [(Str ''d'', Fin 2), (Str ''g'', Fin 2)] = Fin 4"
    by (simp add: otherValue_def fl_numeral)
  have lt: "exact_total ?ps < 2 ^ 53" unfolding t by simp
  have 1: "capSlices ?ps = take 7 (js_sort slice_compare ?ps)
             @ [(Str ''Other'', otherValue (drop 7 (js_sort slice_compare ?ps)))]"
    using pie_cap [OF a b] by (rule conjunct2 [THEN conjunct1])
  have 2: "exact_total (capSlices ?ps) = exact_total ?ps"
    using pie_cap [OF a b] c lt by blast
  show ?thesis unfolding 2 t unfolding 1 s by (simp add: o)
qed

text \<open>
  Claim C4, as stated, fails on the conservation of the total. With eight slices of value
  \<open>2^54\<close> and one slice of value 1, the collapsed slices are \<open>2^54\<close> and 1, and their sum
  \<open>2^54 + 1\<close> is not a double (it is beyond \<open>Number.MAX_SAFE_INTEGER\<close>): the addition
  returns \<open>2^54\<close>, so the output totals \<open>8 * 2^54\<close> and the input \<open>8 * 2^54 + 1\<close>.
\<close>

theorem pie_cap_counterexample:
  "capSlices [(Str ''s1'', Fin 18014398509481984), (Str ''s2'', Fin 18014398509481984),
              (Str ''s3'', Fin 18014398509481984), (Str ''s4'', Fin 18014398509481984),
              (Str ''s5'', Fin 18014398509481984), (Str ''s6'', Fin 18014398509481984),
              (Str ''s7'', Fin 18014398509481984), (Str ''s8'', Fin 18014398509481984),
              (Str ''s9'', Fin 1)]
     = [(Str ''s1'', Fin 18014398509481984), (Str ''s2'', Fin 18014398509481984),
        (Str ''s3'', Fin 18014398509481984), (Str ''s4'', Fin 18014398509481984),
        (Str ''s5'', Fin 18014398509481984), (Str ''s6'', Fin 18014398509481984),
        (Str ''s7'', Fin 18014398509481984), (Str ''Other'', Fin 18014398509481984)]
   \<and> exact_total (capSlices
         [(Str ''s1'', Fin 18014398509481984), (Str ''s2'', Fin 18014398509481984),
          (Str ''s3'', Fin 18014398509481984), (Str ''s4'', Fin 18014398509481984),
          (Str ''s5'', Fin 18014398509481984), (Str ''s6'', Fin 18014398509481984),
          (Str ''s7'', Fin 18014398509481984), (Str ''s8'', Fin 18014398509481984),
          (Str ''s9'', Fin 1)]) = 144115188075855872
   \<and> exact_total
         [(Str ''s1'', Fin 18014398509481984), (Str ''s2'', Fin 18014398509481984),
          (Str ''s3'', Fin 18014398509481984), (Str ''s4'', Fin 18014398509481984),
          (Str ''s5'', Fin 18014398509481984), (Str ''s6'', Fin 18014398509481984),
          (Str ''s7'', Fin 18014398509481984), (Str ''s8'', Fin 18014398509481984),
          (Str ''s9'', Fin 1)] = 144115188075855873"
proof -
  let ?ps = "[(Str ''s1'', Fin 18014398509481984), (Str ''s2'', Fin 18014398509481984),
              (Str ''s3'', Fin 18014398509481984), (Str ''s4'', Fin 18014398509481984),
              (Str ''s5'', Fin 18014398509481984), (Str ''s6'', Fin 18014398509481984),
              (Str ''s7'', Fin 18014398509481984), (Str ''s8'', Fin 18014398509481984),
              (Str ''s9'', Fin 1)] :: slice list"
  have n: "\<not> js_lt (Fin 0) (fl (- 18014398509481983))" by (rule fl_sign_neg) simp
  have s: "js_sort slice_compare ?ps = ?ps"
    by (simp add: js_sort_def slice_compare_def js_sub_Fin fl_zero n)
  have o: "otherValue [(Str ''s8'', Fin 18014398509481984), (Str ''s9'', Fin 1)]
             = Fin 18014398509481984"
    by (simp add: otherValue_def fl_2_54 fl_2_54_plus_1)
  have c: "capSlices ?ps
     = [(Str ''s1'', Fin 18014398509481984), (Str ''s2'', Fin 18014398509481984),
        (Str ''s3'', Fin 18014398509481984), (Str ''s4'', Fin 18014398509481984),
        (Str ''s5'', Fin 18014398509481984), (Str ''s6'', Fin 18014398509481984),
        (Str ''s7'', Fin 18014398509481984), (Str ''Other'', Fin 18014398509481984)]"
    unfolding capSlices_def s by (simp add: js_slice_def o)
  show ?thesis unfolding c by (simp add: exact_total_def fin_val_def)
qed


section \<open>Properties of the type classifier\<close>











section \<open>Properties of the candidate pools\<close>






section \<open>The imported rows and the demo field\<close>

text \<open>
  Claim C2 does not hold of the code. \<open>handleDataImported\<close> keeps the imported row objects
  (a dataset of at most 10000 rows is returned by \<open>optimizeDataset\<close> as it is), and
  \<open>generateDemoData\<close> copies only the array: \<open>row[demoField] = ...\<close> writes into the
  imported objects. For the imported dataset with the one header \<open>name\<close> and the one row
  \<open>{name: "a"}\<close> (the object at reference 0), adding a pie chart leaves that object as
  \<open>{name: "a", demo_pie_value: 10}\<close>; only the header list is built anew.
\<close>

theorem demo_field_written_into_imported_row:
  "heap (handleAddChart (\<lambda>_. Fin 0) (\<lambda>_. Fin 0) 0 Pie noOverrides
          (handleDataImported (\<lambda>_ _. 0) \<lparr> headers = [''name''], rows = [0] \<rparr>
             \<lparr> currentData = None, charts = [],
               heap = (\<lambda>_. [])(0 := [(''name'', Str ''a'')]), randomCalls = 0 \<rparr>)) 0
     = [(''name'', Str ''a''), (''demo_pie_value'', Num (Fin 10))]
   \<and> currentData (handleAddChart (\<lambda>_. Fin 0) (\<lambda>_. Fin 0) 0 Pie noOverrides
          (handleDataImported (\<lambda>_ _. 0) \<lparr> headers = [''name''], rows = [0] \<rparr>
             \<lparr> currentData = None, charts = [],
               heap = (\<lambda>_. [])(0 := [(''name'', Str ''a'')]), randomCalls = 0 \<rparr>))
     = Some \<lparr> headers = [''name'', ''demo_pie_value''], rows = [0] \<rparr>"
proof -
  let ?st0 = "\<lparr> currentData = None, charts = [],
                heap = (\<lambda>_. [])(0 := [(''name'', Str ''a'')]), randomCalls = 0 \<rparr>"
  let ?cd = "\<lparr> headers = [''name''], rows = [0] \<rparr>"
  let ?st1 = "\<lparr> currentData = Some ?cd, charts = [],
                heap = (\<lambda>_. [])(0 := [(''name'', Str ''a'')]), randomCalls = 0 \<rparr>"
  have imp: "handleDataImported (\<lambda>_ _. 0) ?cd ?st0 = ?st1"
    by (simp add: handleDataImported_def optimizeRefs_def)
  have i: "\<not> idNamePattern ''name''"
    by (simp add: idNamePattern_def lower_char_def suffix_def prefix_def Cons_eq_append_conv)
  have rs: "deref ?st1 [0] = [[(''name'', Str ''a'')]]"
    by (simp add: deref_def)
  have p: "parseFloat ''a'' = NaN"
    by (simp add: parseFloat_def unsigned_decimal_def is_white_def is_digit_def Let_def)
  have nf: "numericFields [''name''] [[(''name'', Str ''a'')]] = []"
    by (simp add: numericFields_def isIdLikeField_def i column_def get_field_def is_Str_def
          idPattern_def more_than_half_def numericCount_def is_Num_def p isNaN_def)
  have snf: "scoredNumericFields [''name''] [[(''name'', Str ''a'')]] = []"
    by (simp add: scoredNumericFields_def nf js_sort_def)
  have g: "generateDemoData (\<lambda>_. Fin 0) (\<lambda>_. Fin 0) Pie ?cd ?st1
             = (''demo_pie_value'',
                \<lparr> currentData = Some \<lparr> headers = [''name'', ''demo_pie_value''], rows = [0] \<rparr>,
                  charts = [],
                  heap = (\<lambda>_. [])(0 := [(''name'', Str ''a''), (''demo_pie_value'', Num (Fin 10))]),
                  randomCalls = 0 \<rparr>)"
    by (simp add: generateDemoData_def demoStep_def demoFieldName_def chartTypeName_def
          set_field_def Let_def num_of_nat_def Math_floor_def fl_zero fl_numeral)
  have y: "yOrDemo (\<lambda>_. Fin 0) (\<lambda>_. Fin 0) Pie ?cd [] [] ?st1
             = (Some ''demo_pie_value'',
                \<lparr> currentData = Some \<lparr> headers = [''name'', ''demo_pie_value''], rows = [0] \<rparr>,
                  charts = [],
                  heap = (\<lambda>_. [])(0 := [(''name'', Str ''a''), (''demo_pie_value'', Num (Fin 10))]),
                  randomCalls = 0 \<rparr>)"
    by (simp add: yOrDemo_def g)
  have s: "snd (selectFields (\<lambda>_. Fin 0) (\<lambda>_. Fin 0) Pie ?cd ?st1)
             = \<lparr> currentData = Some \<lparr> headers = [''name'', ''demo_pie_value''], rows = [0] \<rparr>,
                 charts = [],
                 heap = (\<lambda>_. [])(0 := [(''name'', Str ''a''), (''demo_pie_value'', Num (Fin 10))]),
                 randomCalls = 0 \<rparr>"
    by (simp add: selectFields_def Let_def rs nf snf y)
  show ?thesis
    unfolding imp handleAddChart_def
    using s by (simp add: split_beta Let_def)
qed

section \<open>Scenario A: date, region, sales\<close>










































end
